theory Spec2Isabelle
  imports Main "HOL-Library.Word"
begin

unbundle bit_operations_syntax

section \<open>Python strings and integers\<close>

text \<open>
  A Python \<open>str\<close> is modelled as a \<open>string\<close> whose characters are the code points
  below 256.  Python's \<open>int\<close> is unbounded and is modelled as \<open>int\<close>; on \<open>int\<close> the
  operators \<open>AND\<close>, \<open>OR\<close>, \<open>push_bit\<close> and \<open>drop_bit\<close> have the two's-complement
  meaning of Python's \<open>&\<close>, \<open>|\<close>, \<open><<\<close> and \<open>>>\<close>.
\<close>

text \<open>
  The exceptions of the program.  The source raises \<open>AssertionError\<close> at four kinds of
  \<open>assert\<close>; they are told apart by the place that raises them and carry the names of the
  specification's taxonomy:
  \<^item> \<open>RegisterFormatError\<close>: \<open>assert s[0] == 'r'\<close> in \<open>reg\<close>;
  \<^item> \<open>FieldRangeError\<close>: the asserts of \<open>assert_sbits\<close> and \<open>assert_ubits\<close>;
  \<^item> \<open>AlignmentError\<close>: \<open>assert rel & 3 == 0\<close> in \<open>rel24\<close> and \<open>rel16\<close>;
  \<^item> \<open>LabelRedefinitionError\<close>: the assert of \<open>lbl_func\<close>.
  The others are Python's own: \<open>ValueError\<close> (\<open>int\<close> on a malformed literal, unpacking a
  split of the wrong length), \<open>IndexError\<close> (\<open>s[0]\<close> on an empty string, \<open>pop\<close> from an
  empty list), \<open>KeyError\<close> (a missing dictionary key) and \<open>StructError\<close>
  (\<open>struct.pack\<close> on a value outside 32 bits).
\<close>

datatype error =
    RegisterFormatError
  | FieldRangeError
  | AlignmentError
  | LabelRedefinitionError
  | ValueError
  | IndexError
  | KeyError
  | StructError

text \<open>\<open>str.isspace\<close> on the code points below 256, as used by \<open>str.strip()\<close>.\<close>

definition py_isspace :: "char \<Rightarrow> bool" where
  "py_isspace c \<longleftrightarrow> (of_char c :: nat) \<in> {9, 10, 11, 12, 13, 28, 29, 30, 31, 32, 133, 160}"

text \<open>
  The white space that \<open>int(str)\<close> skips around a literal: the C locale's white space,
  and the two non-ASCII spaces below 256, which \<open>int\<close> first rewrites to a blank.
\<close>

definition int_isspace :: "char \<Rightarrow> bool" where
  "int_isspace c \<longleftrightarrow> (of_char c :: nat) \<in> {9, 10, 11, 12, 13, 32, 133, 160}"

definition strip :: "string \<Rightarrow> string" where
  "strip s = rev (dropWhile py_isspace (rev (dropWhile py_isspace s)))"

text \<open>\<open>s.split(c)\<close> for a one-character separator: every occurrence splits, empty pieces are kept.\<close>

fun split_on :: "char \<Rightarrow> string \<Rightarrow> string list" where
  "split_on c [] = [[]]"
| "split_on c (x # xs) =
     (if x = c then [] # split_on c xs
      else (let r = split_on c xs in (x # hd r) # tl r))"

text \<open>\<open>s.split(c, 1)\<close>: at most one split, at the first occurrence.\<close>

definition split1 :: "char \<Rightarrow> string \<Rightarrow> string list" where
  "split1 c s =
     (if c \<in> set s then [takeWhile (\<lambda>x. x \<noteq> c) s, tl (dropWhile (\<lambda>x. x \<noteq> c) s)]
      else [s])"

text \<open>The value of a digit in bases up to 36; 37 for every other character.\<close>

definition digit_value :: "char \<Rightarrow> nat" where
  "digit_value c =
     (let k = (of_char c :: nat) in
      if 48 \<le> k \<and> k \<le> 57 then k - 48
      else if 97 \<le> k \<and> k \<le> 122 then k - 87
      else if 65 \<le> k \<and> k \<le> 90 then k - 55
      else 37)"

text \<open>
  The scan over digits and underscores of \<open>int\<close>: \<open>prev\<close> is the character before, \<open>acc\<close>
  the value so far.  Two underscores in a row and an underscore at the end are refused.
  The result is the value and the text that was not consumed.
\<close>

fun scan_digits :: "nat \<Rightarrow> char \<Rightarrow> nat \<Rightarrow> string \<Rightarrow> (nat \<times> string) option" where
  "scan_digits b prev acc [] = (if prev = CHR ''_'' then None else Some (acc, []))"
| "scan_digits b prev acc (c # cs) =
     (if c = CHR ''_'' then (if prev = CHR ''_'' then None else scan_digits b c acc cs)
      else if digit_value c < b then scan_digits b c (acc * b + digit_value c) cs
      else if prev = CHR ''_'' then None
      else Some (acc, c # cs))"

text \<open>The optional \<open>0x\<close> or \<open>0X\<close> of a base-16 literal, and the one underscore allowed after it.\<close>

fun skip_hex_prefix :: "string \<Rightarrow> string" where
  "skip_hex_prefix (z # x # r) =
     (if z = CHR ''0'' \<and> (x = CHR ''x'' \<or> x = CHR ''X'')
      then (case r of [] \<Rightarrow> r | u # r' \<Rightarrow> if u = CHR ''_'' then r' else r)
      else z # x # r)"
| "skip_hex_prefix s = s"

fun take_sign :: "string \<Rightarrow> int \<times> string" where
  "take_sign [] = (1, [])"
| "take_sign (c # r) =
     (if c = CHR ''+'' then (1, r) else if c = CHR ''-'' then (- 1, r) else (1, c # r))"

text \<open>
  The number of digits in the text that the scan consumed; underscores do not count,
  leading zeros do.
\<close>

definition count_digits :: "string \<Rightarrow> nat" where
  "count_digits s = length (filter (\<lambda>c. c \<noteq> CHR ''_'') s)"

text \<open>
  \<open>int(s)\<close> (\<open>b = 10\<close>) and \<open>int(s, 16)\<close> (\<open>b = 16\<close>): white space, a sign, for base 16 the
  prefix, then at least one digit, single underscores between digits, white space.
  Anything else raises \<open>ValueError\<close>.  In base 10, as in every base that is not a power
  of two, a literal of more than 4300 digits (the interpreter's default limit) raises
  \<open>ValueError\<close> too; base 16 has no limit.
\<close>

definition py_int :: "nat \<Rightarrow> string \<Rightarrow> error + int" where
  "py_int b s =
     (let (sign, s2) = take_sign (dropWhile int_isspace s);
          s3 = (if b = 16 then skip_hex_prefix s2 else s2)
      in case s3 of
           [] \<Rightarrow> Inl ValueError
         | c # _ \<Rightarrow>
             if \<not> digit_value c < b then Inl ValueError
             else (case scan_digits b (CHR 0x00) 0 s3 of
                     None \<Rightarrow> Inl ValueError
                   | Some (v, rest) \<Rightarrow>
                       if b = 10 \<and> 4300 < count_digits (take (length s3 - length rest) s3)
                       then Inl ValueError
                       else if dropWhile int_isspace rest = [] then Inr (sign * int v)
                       else Inl ValueError))"

definition dec_or_hex :: "string \<Rightarrow> error + int" where
  "dec_or_hex v = (case py_int 10 v of Inr n \<Rightarrow> Inr n | Inl e \<Rightarrow> py_int 16 v)"

section \<open>The assembly context\<close>

type_synonym byte = "8 word"

record Context =
  labels :: "string \<rightharpoonup> int"
  base :: int
  code :: "byte list"

definition Context_init :: "int \<Rightarrow> (string \<rightharpoonup> int) \<Rightarrow> Context" where
  "Context_init b ls = \<lparr>labels = ls, base = b, code = []\<rparr>"

definition address :: "Context \<Rightarrow> int" where
  "address ctx = base ctx + int (length (code ctx))"

text \<open>
  \<open>struct.pack(">L", inst)\<close>: four bytes, most significant first; an error outside 32 bits.
\<close>

definition be32 :: "int \<Rightarrow> byte list" where
  "be32 inst = [word_of_int (drop_bit 24 inst), word_of_int (drop_bit 16 inst),
                word_of_int (drop_bit 8 inst), word_of_int inst]"

definition pack_be32 :: "int \<Rightarrow> error + byte list" where
  "pack_be32 inst = (if 0 \<le> inst \<and> inst < 2 ^ 32 then Inr (be32 inst) else Inl StructError)"

definition emit :: "Context \<Rightarrow> int \<Rightarrow> error + Context" where
  "emit ctx inst =
     (case pack_be32 inst of
        Inl e \<Rightarrow> Inl e
      | Inr bs \<Rightarrow> Inr (ctx\<lparr>code := code ctx @ bs\<rparr>))"

section \<open>Bit-field encoders\<close>

definition assert_sbits :: "int \<Rightarrow> nat \<Rightarrow> error + int" where
  "assert_sbits v n =
     (if - (2 ^ (n - 1)) \<le> v \<and> v < 2 ^ (n - 1) then Inr (v AND (push_bit n 1 - 1))
      else Inl FieldRangeError)"

definition assert_ubits :: "int \<Rightarrow> nat \<Rightarrow> error + int" where
  "assert_ubits v n = (if 0 \<le> v \<and> v < 2 ^ n then Inr v else Inl FieldRangeError)"

text \<open>Sequencing of a computation that may raise.\<close>

definition bind :: "error + 'a \<Rightarrow> ('a \<Rightarrow> error + 'b) \<Rightarrow> error + 'b" where
  "bind m f = (case m of Inl e \<Rightarrow> Inl e | Inr x \<Rightarrow> f x)"

definition shl :: "nat \<Rightarrow> int \<Rightarrow> error + int" where
  "shl k v = Inr (push_bit k v)"

definition reg :: "Context \<Rightarrow> string \<Rightarrow> error + int" where
  "reg ctx s =
     (case s of
        [] \<Rightarrow> Inl IndexError
      | c # r \<Rightarrow>
          if c \<noteq> CHR ''r'' then Inl RegisterFormatError
          else bind (py_int 10 r) (\<lambda>n. assert_ubits n 5))"

definition rs :: "Context \<Rightarrow> string \<Rightarrow> error + int" where
  "rs ctx arg = bind (reg ctx arg) (shl 21)"

definition rd :: "Context \<Rightarrow> string \<Rightarrow> error + int" where
  "rd ctx arg = bind (reg ctx arg) (shl 16)"

definition rt :: "Context \<Rightarrow> string \<Rightarrow> error + int" where
  "rt ctx arg = bind (reg ctx arg) (shl 11)"

definition cmpop :: "Context \<Rightarrow> string \<Rightarrow> error + int" where
  "cmpop ctx arg = bind (bind (dec_or_hex arg) (\<lambda>v. assert_ubits v 5)) (shl 16)"

definition simm16 :: "Context \<Rightarrow> string \<Rightarrow> error + int" where
  "simm16 ctx arg = bind (dec_or_hex arg) (\<lambda>v. assert_sbits v 16)"

definition uimm16 :: "Context \<Rightarrow> string \<Rightarrow> error + int" where
  "uimm16 ctx arg = bind (dec_or_hex arg) (\<lambda>v. assert_ubits v 16)"

definition opcode :: "Context \<Rightarrow> string \<Rightarrow> error + int" where
  "opcode ctx arg = bind (bind (dec_or_hex arg) (\<lambda>v. assert_ubits v 6)) (shl 26)"

definition jmpop :: "Context \<Rightarrow> string \<Rightarrow> error + int" where
  "jmpop ctx arg = bind (dec_or_hex arg) (\<lambda>v. assert_ubits v 2)"

text \<open>\<open>ctx.labels.get(arg, 0)\<close>.\<close>

definition labels_get :: "Context \<Rightarrow> string \<Rightarrow> int" where
  "labels_get ctx arg = (case labels ctx arg of None \<Rightarrow> 0 | Some a \<Rightarrow> a)"

definition rel24 :: "Context \<Rightarrow> string \<Rightarrow> error + int" where
  "rel24 ctx arg =
     (let rel = labels_get ctx arg - address ctx in
      if rel AND 3 \<noteq> 0 then Inl AlignmentError
      else assert_sbits (drop_bit 2 rel) 24)"

definition rel16 :: "Context \<Rightarrow> string \<Rightarrow> error + int" where
  "rel16 ctx arg =
     (let rel = labels_get ctx arg - address ctx in
      if rel AND 3 \<noteq> 0 then Inl AlignmentError
      else assert_sbits (drop_bit 2 rel) 16)"

definition off11 :: "Context \<Rightarrow> string \<Rightarrow> error + int" where
  "off11 ctx arg = bind (dec_or_hex arg) (\<lambda>v. assert_ubits v 11)"

definition bitsel :: "Context \<Rightarrow> string \<Rightarrow> error + int" where
  "bitsel ctx arg = bind (bind (dec_or_hex arg) (\<lambda>v. assert_ubits v 5)) (shl 16)"

definition twobits :: "Context \<Rightarrow> string \<Rightarrow> error + int" where
  "twobits ctx arg = bind (dec_or_hex arg) (\<lambda>v. assert_ubits v 2)"

definition funct :: "Context \<Rightarrow> string \<Rightarrow> error + int" where
  "funct ctx arg = bind (dec_or_hex arg) (\<lambda>v. assert_ubits v 11)"

text \<open>The registry filled by the \<open>@field\<close> decorator, keyed by the function's name.\<close>

definition fields :: "string \<rightharpoonup> (Context \<Rightarrow> string \<Rightarrow> error + int)" where
  "fields = map_of
     [(''rs'', rs), (''rd'', rd), (''rt'', rt), (''cmpop'', cmpop), (''simm16'', simm16),
      (''uimm16'', uimm16), (''opcode'', opcode), (''jmpop'', jmpop), (''rel24'', rel24),
      (''rel16'', rel16), (''off11'', off11), (''bitsel'', bitsel), (''twobits'', twobits),
      (''funct'', funct)]"

section \<open>The instruction table\<close>

text \<open>\<open>args.pop(0)\<close> when the token carries no literal.\<close>

definition take_arg :: "string \<Rightarrow> string list \<Rightarrow> error + (string \<times> string list)" where
  "take_arg arg args =
     (if arg = [] then (case args of [] \<Rightarrow> Inl IndexError | a # as \<Rightarrow> Inr (a, as))
      else Inr (arg, args))"

text \<open>
  The loop of \<open>st\<close> over the tokens of the layout: \<open>inst\<close> is the accumulator, \<open>args\<close> the
  operands not yet consumed.
\<close>

fun st_loop :: "Context \<Rightarrow> string list \<Rightarrow> int \<Rightarrow> string list \<Rightarrow> error + int" where
  "st_loop ctx [] inst args = Inr inst"
| "st_loop ctx (part # parts) inst args =
     (case split_on (CHR '':'') part of
        [field, arg] \<Rightarrow>
          bind (take_arg arg args) (\<lambda>(arg', args').
            case fields field of
              None \<Rightarrow> Inl KeyError
            | Some f \<Rightarrow> bind (f ctx arg') (\<lambda>v. st_loop ctx parts (inst OR v) args'))
      | _ \<Rightarrow> Inl ValueError)"

definition st :: "string \<Rightarrow> Context \<Rightarrow> string list \<Rightarrow> error + Context" where
  "st s ctx args = bind (st_loop ctx (split_on (CHR '' '') s) 0 args) (emit ctx)"

definition lbl_func :: "Context \<Rightarrow> string list \<Rightarrow> error + Context" where
  "lbl_func ctx args =
     (case args of
        [] \<Rightarrow> Inl IndexError
      | a # _ \<Rightarrow>
          (case labels ctx a of
             Some addr \<Rightarrow> if addr = address ctx then Inr ctx else Inl LabelRedefinitionError
           | None \<Rightarrow> Inr (ctx\<lparr>labels := (labels ctx)(a \<mapsto> address ctx)\<rparr>)))"

definition instructions :: "string \<rightharpoonup> (Context \<Rightarrow> string list \<Rightarrow> error + Context)" where
  "instructions = map_of
     [(''unk.r'', st ''opcode: rd: rs: rt: funct:''),
      (''addi'', st ''opcode:0x00 rd: rs: simm16:''),
      (''set0'', st ''opcode:0x06 rd: rs: uimm16:''),
      (''set1'', st ''opcode:0x07 rd: rs: uimm16:''),
      (''set3'', st ''opcode:0x08 rd: rs: uimm16:''),
      (''set2'', st ''opcode:0x09 rd: rs: uimm16:''),
      (''call'', st ''opcode:0x25 jmpop:0x0 rel24:''),
      (''jump'', st ''opcode:0x25 jmpop:0x1 rel24:''),
      (''alu.r'', st ''opcode:0x3f funct: rd: rs: rt:''),
      (''add'', st ''opcode:0x3f rd: rs: rt: funct:0x000''),
      (''sub'', st ''opcode:0x3f rd: rs: rt: funct:0x004''),
      (''subs'', st ''opcode:0x3f rd: rs: rt: funct:0x005''),
      (''alur.0xb'', st ''opcode:0x3f rd: rs: rt: funct:00b''),
      (''b.t'', st ''opcode:0x28 cmpop: rs: rel16:''),
      (''b.f'', st ''opcode:0x29 cmpop: rs: rel16:''),
      (''b.set'', st ''opcode:0x2a rs: bitsel: rel16:''),
      (''b.clr'', st ''opcode:0x2b rs: bitsel: rel16:''),
      (''ld.d'', st ''opcode:0x19 rd: rs: rt: off11: twobits:0x2''),
      (''st.d'', st ''opcode:0x1b rd: rs: rt: off11: twobits:0x2''),
      (''st.q'', st ''opcode:0x1e rd: rs: rt: off11: twobits:''),
      (''ret.d'', st ''opcode:0x3f rd: rs: rt: funct:0x02d''),
      (''lbl'', lbl_func)]"

section \<open>The two-pass driver\<close>

text \<open>A line is skipped when it is empty after \<open>strip()\<close> or starts with \<open>#\<close>.\<close>

definition skipped :: "string \<Rightarrow> bool" where
  "skipped line \<longleftrightarrow> line = [] \<or> hd line = CHR ''#''"

text \<open>The body of the loop of \<open>assemble_pass\<close>, for one element of \<open>source.split("\n")\<close>.\<close>

definition assemble_line :: "Context \<Rightarrow> string \<Rightarrow> error + Context" where
  "assemble_line ctx raw =
     (let line = strip raw in
      if skipped line then Inr ctx
      else (case split1 (CHR '' '') line of
              [op, args] \<Rightarrow>
                (let args' = map strip (split_on (CHR '','') (strip args)) in
                 case instructions op of
                   None \<Rightarrow> Inl KeyError
                 | Some f \<Rightarrow> f ctx args')
            | _ \<Rightarrow> Inl ValueError))"

fun assemble_lines :: "Context \<Rightarrow> string list \<Rightarrow> error + Context" where
  "assemble_lines ctx [] = Inr ctx"
| "assemble_lines ctx (l # ls) = bind (assemble_line ctx l) (\<lambda>ctx'. assemble_lines ctx' ls)"

definition assemble_pass :: "Context \<Rightarrow> string \<Rightarrow> error + Context" where
  "assemble_pass ctx source = assemble_lines ctx (split_on (CHR 0x0A) source)"

text \<open>
  \<open>assemble\<close>, given the content \<open>d\<close> of the dictionary that is the default value of the
  parameter \<open>labels\<close> of \<open>Context.__init__\<close>.  \<open>Context(base)\<close> copies that dictionary,
  \<open>Context(base, ctx.labels)\<close> copies the label table of the first pass.
\<close>

definition assemble_from :: "(string \<rightharpoonup> int) \<Rightarrow> string \<Rightarrow> int \<Rightarrow> error + byte list" where
  "assemble_from d source b =
     bind (assemble_pass (Context_init b d) source) (\<lambda>ctx.
       bind (assemble_pass (Context_init b (labels ctx)) source) (\<lambda>ctx'.
         Inr (code ctx')))"

text \<open>
  The default dictionary is the literal \<open>{}\<close>, created once with the class, and it stays
  empty (section "Dictionaries as objects" below), so \<open>assemble\<close> is:
\<close>

definition assemble :: "string \<Rightarrow> int \<Rightarrow> error + byte list" where
  "assemble source b = assemble_from Map.empty source b"

section \<open>Dictionaries as objects\<close>

text \<open>
  Python dictionaries are mutable objects, and the default value of \<open>labels\<close> is one
  object shared by every call of \<open>Context.__init__\<close>.  To see what an invocation of
  \<open>assemble\<close> leaves behind, this section keeps the dictionaries in a store: a reference
  is an index into the list of all dictionaries, \<open>dict(labels)\<close> allocates a new one with
  the same content, and \<open>ctx.labels[k] = v\<close> updates the dictionary that \<open>ctx.labels\<close>
  refers to.  The store is returned also when the call raises.
\<close>

type_synonym ref = nat

type_synonym store = "(string \<rightharpoonup> int) list"

text \<open>The default dictionary of \<open>Context.__init__\<close> is the first object allocated.\<close>

definition default_labels :: ref where
  "default_labels = 0"

datatype Context_obj =
  Context_obj (labels_ref: ref) (base_of: int) (code_of: "byte list")

text \<open>The context as the field encoders and instruction functions read it.\<close>

definition view :: "store \<Rightarrow> Context_obj \<Rightarrow> Context" where
  "view h c = \<lparr>labels = h ! labels_ref c, base = base_of c, code = code_of c\<rparr>"

text \<open>
  \<open>Context(base)\<close> (\<open>arg = None\<close>, the default is used) and \<open>Context(base, labels)\<close>
  (\<open>arg = Some r\<close>): \<open>self.labels = dict(labels)\<close> is a new dictionary.
\<close>

definition Context_new :: "store \<Rightarrow> int \<Rightarrow> ref option \<Rightarrow> Context_obj \<times> store" where
  "Context_new h b arg =
     (let r = (case arg of None \<Rightarrow> default_labels | Some r \<Rightarrow> r)
      in (Context_obj (length h) b [], h @ [h ! r]))"

text \<open>
  One line of a pass on a context object: the line's effect on \<open>ctx.code\<close> is kept in the
  object, its effect on the dictionary goes to the store.  A line that raises has changed
  neither.
\<close>

definition assemble_line_obj :: "store \<Rightarrow> Context_obj \<Rightarrow> string \<Rightarrow> (error + Context_obj) \<times> store" where
  "assemble_line_obj h c raw =
     (case assemble_line (view h c) raw of
        Inl e \<Rightarrow> (Inl e, h)
      | Inr ctx' \<Rightarrow> (Inr (Context_obj (labels_ref c) (base_of c) (code ctx')), h[labels_ref c := labels ctx']))"

fun assemble_lines_obj :: "store \<Rightarrow> Context_obj \<Rightarrow> string list \<Rightarrow> (error + Context_obj) \<times> store" where
  "assemble_lines_obj h c [] = (Inr c, h)"
| "assemble_lines_obj h c (l # ls) =
     (case assemble_line_obj h c l of
        (Inl e, h') \<Rightarrow> (Inl e, h')
      | (Inr c', h') \<Rightarrow> assemble_lines_obj h' c' ls)"

definition assemble_pass_obj :: "store \<Rightarrow> Context_obj \<Rightarrow> string \<Rightarrow> (error + Context_obj) \<times> store" where
  "assemble_pass_obj h c source = assemble_lines_obj h c (split_on (CHR 0x0A) source)"

definition assemble_obj :: "store \<Rightarrow> string \<Rightarrow> int \<Rightarrow> (error + byte list) \<times> store" where
  "assemble_obj h source b =
     (let (c1, h1) = Context_new h b None in
      case assemble_pass_obj h1 c1 source of
        (Inl e, h2) \<Rightarrow> (Inl e, h2)
      | (Inr c1', h2) \<Rightarrow>
          (let (c2, h3) = Context_new h2 b (Some (labels_ref c1')) in
           case assemble_pass_obj h3 c2 source of
             (Inl e, h4) \<Rightarrow> (Inl e, h4)
           | (Inr c2', h4) \<Rightarrow> (Inr (code_of c2'), h4)))"

section \<open>Notions of the specification\<close>

text \<open>The mnemonic of a trimmed line: the text before its first blank.\<close>

definition mnemonic :: "string \<Rightarrow> string" where
  "mnemonic line = takeWhile (\<lambda>c. c \<noteq> CHR '' '') line"

text \<open>
  A line of the source that stands for an instruction: not blank after trimming, not a
  comment, and its mnemonic is not \<open>lbl\<close>.
\<close>

definition emitting :: "string \<Rightarrow> bool" where
  "emitting raw \<longleftrightarrow>
     (let line = strip raw in line \<noteq> [] \<and> hd line \<noteq> CHR ''#'' \<and> mnemonic line \<noteq> ''lbl'')"

text \<open>The \<open>i\<close>-th instruction word of an output, read back most significant byte first.\<close>

fun be_value :: "byte list \<Rightarrow> int" where
  "be_value [] = 0"
| "be_value (x # xs) = uint x * 256 ^ length xs + be_value xs"

definition word_at :: "byte list \<Rightarrow> nat \<Rightarrow> int" where
  "word_at bs i = be_value (take 4 (drop (4 * i) bs))"

text \<open>The sources of the examples; \<open>CHR 0x0A\<close> is the newline.\<close>

definition example_jump :: string where
  "example_jump =
     ''jump end'' @ [CHR 0x0A] @ ''addi r1, r1, 1'' @ [CHR 0x0A] @ ''addi r1, r1, 1'' @ [CHR 0x0A]
       @ ''addi r1, r1, 1'' @ [CHR 0x0A] @ ''lbl end''"

definition example_loop :: string where
  "example_loop =
     ''addi r1, r2, 10'' @ [CHR 0x0A] @ ''lbl loop'' @ [CHR 0x0A] @ ''addi r1, r1, -1''
       @ [CHR 0x0A] @ ''b.t 0, r1, loop''"

definition example_forward :: string where
  "example_forward = ''jump end'' @ [CHR 0x0A] @ ''lbl end''"

section \<open>Python's bit operations as arithmetic\<close>

lemma and_3_eq_mod: "(x::int) AND 3 = x mod 4"
proof -
  have "x AND mask 2 = x mod 2 ^ 2"
    by (simp only: take_bit_eq_mask [symmetric] take_bit_eq_mod)
  then show ?thesis by (simp add: mask_eq_exp_minus_1)
qed

lemma and_low_bits_eq_mod: "(v::int) AND (push_bit n 1 - 1) = v mod 2 ^ n"
proof -
  have "v AND mask n = v mod 2 ^ n"
    by (simp only: take_bit_eq_mask [symmetric] take_bit_eq_mod)
  then show ?thesis by (simp add: mask_eq_exp_minus_1 push_bit_eq_mult)
qed

lemma and_ffff_eq_mod: "(v::int) AND 0xFFFF = v mod 2 ^ 16"
  using and_low_bits_eq_mod [of v 16] by (simp add: push_bit_eq_mult)

lemma drop_bit_2_eq_div: "drop_bit 2 (x::int) = x div 4"
  by (simp add: drop_bit_eq_div)

lemma assert_sbits_eq:
  "assert_sbits v n =
     (if - (2 ^ (n - 1)) \<le> v \<and> v < 2 ^ (n - 1) then Inr (v mod 2 ^ n) else Inl FieldRangeError)"
  by (simp only: assert_sbits_def and_low_bits_eq_mod)

section \<open>The signed 16-bit immediate\<close>

lemma py_int_10_32767: "py_int 10 ''32767'' = Inr 32767"
  by (simp add: py_int_def int_isspace_def digit_value_def count_digits_def)

lemma py_int_10_32768: "py_int 10 ''32768'' = Inr 32768"
  by (simp add: py_int_def int_isspace_def digit_value_def count_digits_def)

lemma py_int_10_m32768: "py_int 10 ''-32768'' = Inr (- 32768)"
  by (simp add: py_int_def int_isspace_def digit_value_def count_digits_def)

lemma py_int_10_m32769: "py_int 10 ''-32769'' = Inr (- 32769)"
  by (simp add: py_int_def int_isspace_def digit_value_def count_digits_def)

lemma simm16_of_value:
  "dec_or_hex arg = Inr v \<Longrightarrow>
   simm16 ctx arg =
     (if - 32768 \<le> v \<and> v < 32768 then Inr (v AND 0xFFFF) else Inl FieldRangeError)"
  by (simp add: simm16_def bind_def assert_sbits_eq and_ffff_eq_mod)

lemma simm16_of_error: "dec_or_hex arg = Inl e \<Longrightarrow> simm16 ctx arg = Inl e"
  by (simp add: simm16_def bind_def)

text \<open>
  Claim C5.  The \<open>simm16\<close> encoder accepts exactly the operands whose value \<open>v\<close> satisfies
  \<open>-32768 \<le> v < 32768\<close> and returns \<open>v & 0xFFFF\<close>, unshifted; every other value
  fails with \<open>FieldRangeError\<close>.  In particular \<open>32767\<close> gives \<open>0x7FFF\<close>, \<open>-32768\<close>
  gives \<open>0x8000\<close>, and \<open>32768\<close> and \<open>-32769\<close> fail with \<open>FieldRangeError\<close>.
\<close>

theorem simm16_range:
  "(dec_or_hex arg = Inr v \<longrightarrow>
      simm16 ctx arg =
        (if - 32768 \<le> v \<and> v < 32768 then Inr (v AND 0xFFFF) else Inl FieldRangeError))
   \<and> ((\<exists>r. simm16 ctx arg = Inr r) \<longleftrightarrow>
        (\<exists>v. dec_or_hex arg = Inr v \<and> - 32768 \<le> v \<and> v < 32768))
   \<and> simm16 ctx ''32767'' = Inr 0x7FFF
   \<and> simm16 ctx ''-32768'' = Inr 0x8000
   \<and> simm16 ctx ''32768'' = Inl FieldRangeError
   \<and> simm16 ctx ''-32769'' = Inl FieldRangeError"
proof -
  have general: "dec_or_hex arg = Inr v \<longrightarrow>
      simm16 ctx arg =
        (if - 32768 \<le> v \<and> v < 32768 then Inr (v AND 0xFFFF) else Inl FieldRangeError)"
    by (simp add: simm16_of_value)
  have accepts: "(\<exists>r. simm16 ctx arg = Inr r) \<longleftrightarrow>
        (\<exists>v. dec_or_hex arg = Inr v \<and> - 32768 \<le> v \<and> v < 32768)"
  proof (cases "dec_or_hex arg")
    case (Inl e)
    then show ?thesis by (simp add: simm16_of_error)
  next
    case (Inr v)
    then show ?thesis by (simp add: simm16_of_value)
  qed
  have a: "simm16 ctx ''32767'' = Inr 0x7FFF"
    by (simp add: simm16_def dec_or_hex_def py_int_10_32767 bind_def assert_sbits_eq)
  have b: "simm16 ctx ''-32768'' = Inr 0x8000"
    by (simp add: simm16_def dec_or_hex_def py_int_10_m32768 bind_def assert_sbits_eq)
  have c: "simm16 ctx ''32768'' = Inl FieldRangeError"
    by (simp add: simm16_def dec_or_hex_def py_int_10_32768 bind_def assert_sbits_eq)
  have d: "simm16 ctx ''-32769'' = Inl FieldRangeError"
    by (simp add: simm16_def dec_or_hex_def py_int_10_m32769 bind_def assert_sbits_eq)
  from general accepts a b c d show ?thesis by blast
qed

lemma dec_or_hex_m5: "dec_or_hex ''-5'' = Inr (- 5)"
  by (simp add: dec_or_hex_def py_int_def int_isspace_def digit_value_def count_digits_def)

theorem simm16_range_witness:
  "dec_or_hex ''-5'' = Inr (- 5) \<and> simm16 (Context_init 0 Map.empty) ''-5'' = Inr 0xFFFB"
  using simm16_range [of "''-5''" "- 5" "Context_init 0 Map.empty"] dec_or_hex_m5
  by (simp add: and_ffff_eq_mod)


section \<open>Register operands\<close>



lemma reg_malformed:
  "reg ctx [] = Inl IndexError"
  "py_int 10 r = Inl e \<Longrightarrow> reg ctx (CHR ''r'' # r) = Inl e"
  by (simp_all add: reg_def bind_def)





section \<open>Relative offsets\<close>

lemma rel_encode:
  "(let rel = a - b in
    if rel AND 3 \<noteq> 0 then Inl AlignmentError else assert_sbits (drop_bit 2 rel) n) =
   (let relative = a - b in
    if relative mod 4 \<noteq> 0 then Inl AlignmentError
    else if - (2 ^ (n - 1)) \<le> relative div 4 \<and> relative div 4 < 2 ^ (n - 1)
         then Inr ((relative div 4) mod 2 ^ n)
         else Inl FieldRangeError)"
  by (simp only: and_3_eq_mod drop_bit_2_eq_div assert_sbits_eq)

lemma rel24_eq:
  "rel24 ctx arg =
     (let relative = labels_get ctx arg - address ctx in
      if relative mod 4 \<noteq> 0 then Inl AlignmentError
      else if - (2 ^ 23) \<le> relative div 4 \<and> relative div 4 < 2 ^ 23
           then Inr ((relative div 4) mod 2 ^ 24)
           else Inl FieldRangeError)"
  unfolding rel24_def rel_encode by (simp add: Let_def)

lemma rel16_eq:
  "rel16 ctx arg =
     (let relative = labels_get ctx arg - address ctx in
      if relative mod 4 \<noteq> 0 then Inl AlignmentError
      else if - (2 ^ 15) \<le> relative div 4 \<and> relative div 4 < 2 ^ 15
           then Inr ((relative div 4) mod 2 ^ 16)
           else Inl FieldRangeError)"
  unfolding rel16_def rel_encode by (simp add: Let_def)

text \<open>
  Claim C7.  With \<open>relative\<close> the label's address (0 for a label not in the table) minus
  the address of the current instruction, \<open>rel24\<close> and \<open>rel16\<close> fail with
  \<open>AlignmentError\<close> whenever \<open>relative\<close> is not a multiple of 4, whether or not the
  quotient would fit; otherwise they return the two's-complement pattern of
  \<open>relative / 4\<close> in 24 and 16 bits, or fail with \<open>FieldRangeError\<close> when the quotient is
  outside the signed range of the field.
\<close>

theorem relative_fields:
  "rel24 ctx arg =
     (let relative = labels_get ctx arg - address ctx in
      if relative mod 4 \<noteq> 0 then Inl AlignmentError
      else if - (2 ^ 23) \<le> relative div 4 \<and> relative div 4 < 2 ^ 23
           then Inr ((relative div 4) mod 2 ^ 24)
           else Inl FieldRangeError)
   \<and> rel16 ctx arg =
     (let relative = labels_get ctx arg - address ctx in
      if relative mod 4 \<noteq> 0 then Inl AlignmentError
      else if - (2 ^ 15) \<le> relative div 4 \<and> relative div 4 < 2 ^ 15
           then Inr ((relative div 4) mod 2 ^ 16)
           else Inl FieldRangeError)"
  using rel24_eq [of ctx arg] rel16_eq [of ctx arg] by (rule conjI)

theorem relative_fields_witness:
  "rel24 \<lparr>labels = [''a'' \<mapsto> 6], base = 0, code = []\<rparr> ''a'' = Inl AlignmentError
   \<and> rel16 \<lparr>labels = [''a'' \<mapsto> 4], base = 8, code = []\<rparr> ''a'' = Inr 0xFFFF
   \<and> rel16 \<lparr>labels = [''a'' \<mapsto> 131072], base = 0, code = []\<rparr> ''a'' = Inl FieldRangeError"
  using relative_fields [of "\<lparr>labels = [''a'' \<mapsto> 6], base = 0, code = []\<rparr>" "''a''"]
    relative_fields [of "\<lparr>labels = [''a'' \<mapsto> 4], base = 8, code = []\<rparr>" "''a''"]
    relative_fields [of "\<lparr>labels = [''a'' \<mapsto> 131072], base = 0, code = []\<rparr>" "''a''"]
  by (simp add: labels_get_def address_def)

section \<open>Splitting and trimming\<close>

lemma split_on_no_sep: "c \<notin> set s \<Longrightarrow> split_on c s = [s]"
  by (induction s) (auto simp: Let_def)

lemma split_on_append_sep: "c \<notin> set a \<Longrightarrow> split_on c (a @ c # rest) = a # split_on c rest"
  by (induction a) (auto simp: Let_def)

lemma strip_unchanged:
  assumes "s \<noteq> []" and "\<not> py_isspace (hd s)" and "\<not> py_isspace (last s)"
  shows "strip s = s"
proof -
  from assms(1,2) have "dropWhile py_isspace s = s" by (cases s) simp_all
  moreover from assms(1,3) have "dropWhile py_isspace (rev s) = rev s"
    by (cases "rev s") (simp_all add: last_rev [symmetric] hd_rev)
  ultimately show ?thesis by (simp add: strip_def)
qed

lemma instructions_lbl: "instructions ''lbl'' = Some lbl_func"
  by (simp add: instructions_def)

lemma instructions_addi: "instructions ''addi'' = Some (st ''opcode:0x00 rd: rs: simm16:'')"
  by (simp add: instructions_def)

lemma lbl_line:
  assumes "name \<noteq> []" and "\<not> py_isspace (hd name)" and "\<not> py_isspace (last name)"
    and "CHR '','' \<notin> set name"
  shows "assemble_line ctx (''lbl '' @ name) = lbl_func ctx [name]"
proof -
  have "\<not> py_isspace (CHR ''l'')" by (simp add: py_isspace_def)
  with assms(1,3) have s: "strip (''lbl '' @ name) = ''lbl '' @ name"
    by (intro strip_unchanged) simp_all
  have sk: "\<not> skipped (''lbl '' @ name)" by (simp add: skipped_def)
  have sp: "split1 (CHR '' '') (''lbl '' @ name) = [''lbl'', name]" by (simp add: split1_def)
  from assms(1-3) have sn: "strip name = name" by (rule strip_unchanged)
  from assms(4) have sc: "split_on (CHR '','') name = [name]" by (rule split_on_no_sep)
  show ?thesis
    unfolding assemble_line_def s Let_def using sk
    by (simp only: sp sn sc instructions_lbl if_False list.case option.case list.map)
qed

section \<open>Label declarations\<close>

text \<open>
  Claim C8.  \<open>lbl name\<close>, when \<open>name\<close> is bound to the current address, succeeds and
  returns the context as it was (no byte emitted, the label table unchanged); when
  \<open>name\<close> is bound to another address it fails with \<open>LabelRedefinitionError\<close>; when
  \<open>name\<close> is absent it binds \<open>name\<close> to the current address and changes nothing else.
  The line \<open>lbl name\<close> is processed by \<open>lbl_func\<close> on \<open>name\<close>, for every name that is
  not empty, has no white space at either end and no comma.
\<close>

theorem label_declaration:
  "(labels ctx name = Some (address ctx) \<longrightarrow> lbl_func ctx (name # rest) = Inr ctx)
   \<and> (labels ctx name = Some a \<and> a \<noteq> address ctx \<longrightarrow>
        lbl_func ctx (name # rest) = Inl LabelRedefinitionError)
   \<and> (labels ctx name = None \<longrightarrow>
        lbl_func ctx (name # rest) =
          Inr \<lparr>labels = (labels ctx)(name \<mapsto> address ctx), base = base ctx, code = code ctx\<rparr>)
   \<and> (name \<noteq> [] \<and> \<not> py_isspace (hd name) \<and> \<not> py_isspace (last name)
        \<and> CHR '','' \<notin> set name \<longrightarrow>
        assemble_line ctx (''lbl '' @ name) = lbl_func ctx [name])"
proof -
  have "name \<noteq> [] \<and> \<not> py_isspace (hd name) \<and> \<not> py_isspace (last name)
        \<and> CHR '','' \<notin> set name \<longrightarrow>
        assemble_line ctx (''lbl '' @ name) = lbl_func ctx [name]"
    using lbl_line [of name ctx] by blast
  then show ?thesis by (simp add: lbl_func_def)
qed

theorem label_declaration_witness:
  "assemble_line \<lparr>labels = [''a'' \<mapsto> 4], base = 4, code = []\<rparr> ''lbl a''
      = Inr \<lparr>labels = [''a'' \<mapsto> 4], base = 4, code = []\<rparr>
   \<and> assemble_line \<lparr>labels = [''a'' \<mapsto> 4], base = 8, code = []\<rparr> ''lbl a''
      = Inl LabelRedefinitionError
   \<and> assemble_line \<lparr>labels = Map.empty, base = 8, code = []\<rparr> ''lbl a''
      = Inr \<lparr>labels = [''a'' \<mapsto> 8], base = 8, code = []\<rparr>"
  using label_declaration [of "\<lparr>labels = [''a'' \<mapsto> 4], base = 4, code = []\<rparr>" "''a''" "[]" 4]
    label_declaration [of "\<lparr>labels = [''a'' \<mapsto> 4], base = 8, code = []\<rparr>" "''a''" "[]" 4]
    label_declaration [of "\<lparr>labels = Map.empty, base = 8, code = []\<rparr>" "''a''" "[]" 4]
  by (simp add: address_def py_isspace_def)

section \<open>What one line does to the context\<close>

lemma length_be32: "length (be32 w) = 4"
  by (simp add: be32_def)

lemma emit_result:
  "emit ctx inst = Inr ctx' \<Longrightarrow>
   0 \<le> inst \<and> inst < 2 ^ 32 \<and> ctx' = ctx\<lparr>code := code ctx @ be32 inst\<rparr>"
  by (auto simp: emit_def pack_be32_def split: if_splits)

lemma st_result:
  assumes "st s ctx args = Inr ctx'"
  shows "\<exists>w. 0 \<le> w \<and> w < 2 ^ 32 \<and> ctx' = ctx\<lparr>code := code ctx @ be32 w\<rparr>"
proof (cases "st_loop ctx (split_on (CHR '' '') s) 0 args")
  case (Inl e)
  with assms show ?thesis by (simp add: st_def bind_def)
next
  case (Inr w)
  with assms have "emit ctx w = Inr ctx'" by (simp add: st_def bind_def)
  then show ?thesis using emit_result by blast
qed

lemma lbl_func_result:
  "lbl_func ctx args = Inr ctx' \<Longrightarrow> code ctx' = code ctx \<and> base ctx' = base ctx"
  by (auto simp: lbl_func_def split: list.splits option.splits if_splits)

lemma instructions_cases:
  assumes "instructions op = Some f"
  shows "(op = ''lbl'' \<and> f = lbl_func) \<or> (op \<noteq> ''lbl'' \<and> (\<exists>s. f = st s))"
proof -
  from assms have "(op, f) \<in> set
     [(''unk.r'', st ''opcode: rd: rs: rt: funct:''),
      (''addi'', st ''opcode:0x00 rd: rs: simm16:''),
      (''set0'', st ''opcode:0x06 rd: rs: uimm16:''),
      (''set1'', st ''opcode:0x07 rd: rs: uimm16:''),
      (''set3'', st ''opcode:0x08 rd: rs: uimm16:''),
      (''set2'', st ''opcode:0x09 rd: rs: uimm16:''),
      (''call'', st ''opcode:0x25 jmpop:0x0 rel24:''),
      (''jump'', st ''opcode:0x25 jmpop:0x1 rel24:''),
      (''alu.r'', st ''opcode:0x3f funct: rd: rs: rt:''),
      (''add'', st ''opcode:0x3f rd: rs: rt: funct:0x000''),
      (''sub'', st ''opcode:0x3f rd: rs: rt: funct:0x004''),
      (''subs'', st ''opcode:0x3f rd: rs: rt: funct:0x005''),
      (''alur.0xb'', st ''opcode:0x3f rd: rs: rt: funct:00b''),
      (''b.t'', st ''opcode:0x28 cmpop: rs: rel16:''),
      (''b.f'', st ''opcode:0x29 cmpop: rs: rel16:''),
      (''b.set'', st ''opcode:0x2a rs: bitsel: rel16:''),
      (''b.clr'', st ''opcode:0x2b rs: bitsel: rel16:''),
      (''ld.d'', st ''opcode:0x19 rd: rs: rt: off11: twobits:0x2''),
      (''st.d'', st ''opcode:0x1b rd: rs: rt: off11: twobits:0x2''),
      (''st.q'', st ''opcode:0x1e rd: rs: rt: off11: twobits:''),
      (''ret.d'', st ''opcode:0x3f rd: rs: rt: funct:0x02d''),
      (''lbl'', lbl_func)]"
    unfolding instructions_def by (rule map_of_SomeD)
  then show ?thesis
    by (elim set_ConsD [elim_format] disjE) auto
qed


lemma split1_mnemonic: "split1 (CHR '' '') line = [op, args] \<Longrightarrow> mnemonic line = op"
  by (auto simp: split1_def mnemonic_def split: if_splits)

lemma emitting_iff:
  "emitting raw \<longleftrightarrow> \<not> skipped (strip raw) \<and> mnemonic (strip raw) \<noteq> ''lbl''"
  by (auto simp: emitting_def skipped_def Let_def)

lemma assemble_line_result:
  assumes "assemble_line ctx raw = Inr ctx'"
  shows "base ctx' = base ctx"
    and "emitting raw \<Longrightarrow>
           \<exists>w. 0 \<le> w \<and> w < 2 ^ 32 \<and> ctx' = ctx\<lparr>code := code ctx @ be32 w\<rparr>"
    and "\<not> emitting raw \<Longrightarrow> code ctx' = code ctx"
proof -
  let ?line = "strip raw"
  have all: "base ctx' = base ctx
      \<and> (emitting raw \<longrightarrow> (\<exists>w. 0 \<le> w \<and> w < 2 ^ 32 \<and> ctx' = ctx\<lparr>code := code ctx @ be32 w\<rparr>))
      \<and> (\<not> emitting raw \<longrightarrow> code ctx' = code ctx)"
  proof (cases "skipped ?line")
    case True
    with assms have "ctx' = ctx" by (simp add: assemble_line_def)
    with True show ?thesis by (simp add: emitting_iff)
  next
    case False
    with assms obtain op args f where
      sp: "split1 (CHR '' '') ?line = [op, args]" and
      ins: "instructions op = Some f" and
      run: "f ctx (map strip (split_on (CHR '','') (strip args))) = Inr ctx'"
      by (auto simp: assemble_line_def Let_def split: list.splits option.splits)
    from sp have mn: "mnemonic ?line = op" by (rule split1_mnemonic)
    from instructions_cases [OF ins] show ?thesis
    proof
      assume "op = ''lbl'' \<and> f = lbl_func"
      with run mn show ?thesis
        by (auto simp: emitting_iff dest: lbl_func_result)
    next
      assume a: "op \<noteq> ''lbl'' \<and> (\<exists>s. f = st s)"
      then obtain s where "f = st s" by blast
      with run obtain w where
        w: "0 \<le> w" "w < 2 ^ 32" "ctx' = ctx\<lparr>code := code ctx @ be32 w\<rparr>"
        using st_result by blast
      from a mn False have "emitting raw" by (simp add: emitting_iff)
      with w show ?thesis by auto
    qed
  qed
  from all show "base ctx' = base ctx" by blast
  from all show "emitting raw \<Longrightarrow>
           \<exists>w. 0 \<le> w \<and> w < 2 ^ 32 \<and> ctx' = ctx\<lparr>code := code ctx @ be32 w\<rparr>" by blast
  from all show "\<not> emitting raw \<Longrightarrow> code ctx' = code ctx" by blast
qed

lemma assemble_line_length:
  assumes "assemble_line ctx raw = Inr ctx'"
  shows "length (code ctx') = length (code ctx) + (if emitting raw then 4 else 0)"
proof (cases "emitting raw")
  case True
  with assemble_line_result(2) [OF assms] show ?thesis by (auto simp: length_be32)
next
  case False
  with assemble_line_result(3) [OF assms] show ?thesis by simp
qed

text \<open>The relation between an instruction line and the word it is encoded as at base \<open>b\<close>.\<close>

lemma assemble_lines_words:
  "assemble_lines ctx ls = Inr ctx' \<Longrightarrow>
   base ctx' = base ctx \<and>
   (\<exists>ws. list_all2
            (\<lambda>l w. 0 \<le> w \<and> w < 2 ^ 32 \<and>
               (\<exists>c. base c = base ctx \<and> assemble_line c l = Inr (c\<lparr>code := code c @ be32 w\<rparr>)))
            (filter emitting ls) ws
         \<and> code ctx' = code ctx @ concat (map be32 ws))"
proof (induction ls arbitrary: ctx)
  case Nil
  then show ?case by simp
next
  case (Cons l ls)
  from Cons.prems obtain c1 where
    l: "assemble_line ctx l = Inr c1" and rest: "assemble_lines c1 ls = Inr ctx'"
    by (auto simp: bind_def split: sum.splits)
  from assemble_line_result(1) [OF l] have b1: "base c1 = base ctx" .
  from Cons.IH [OF rest] b1 obtain ws where
    b: "base ctx' = base ctx" and
    ws: "list_all2
            (\<lambda>l w. 0 \<le> w \<and> w < 2 ^ 32 \<and>
               (\<exists>c. base c = base ctx \<and> assemble_line c l = Inr (c\<lparr>code := code c @ be32 w\<rparr>)))
            (filter emitting ls) ws" and
    c: "code ctx' = code c1 @ concat (map be32 ws)"
    by auto
  show ?case
  proof (cases "emitting l")
    case True
    from assemble_line_result(2) [OF l True] obtain w where
      w: "0 \<le> w" "w < 2 ^ 32" "c1 = ctx\<lparr>code := code ctx @ be32 w\<rparr>" by blast
    with l have "\<exists>c. base c = base ctx \<and> assemble_line c l = Inr (c\<lparr>code := code c @ be32 w\<rparr>)"
      by blast
    with w ws have "list_all2
            (\<lambda>l w. 0 \<le> w \<and> w < 2 ^ 32 \<and>
               (\<exists>c. base c = base ctx \<and> assemble_line c l = Inr (c\<lparr>code := code c @ be32 w\<rparr>)))
            (filter emitting (l # ls)) (w # ws)"
      using True by simp
    moreover from c w have "code ctx' = code ctx @ concat (map be32 (w # ws))" by simp
    ultimately show ?thesis using b by blast
  next
    case False
    from assemble_line_result(3) [OF l False] c
    have "code ctx' = code ctx @ concat (map be32 ws)" by simp
    with ws b False show ?thesis by auto
  qed
qed

lemma length_concat_be32: "length (concat (map be32 ws)) = 4 * length ws"
  by (induction ws) (simp_all add: length_be32)


lemma assemble_from_pass:
  assumes "assemble_from d source b = Inr bs"
  shows "\<exists>ctx ctx'. assemble_pass (Context_init b d) source = Inr ctx
           \<and> assemble_pass (Context_init b (labels ctx)) source = Inr ctx' \<and> code ctx' = bs"
  using assms by (auto simp: assemble_from_def bind_def split: sum.splits)

section \<open>Output length\<close>

text \<open>
  Claim C3.  When \<open>assemble\<close> succeeds, the output is the concatenation, in source order,
  of one 4-byte big-endian word for each line of the source that is not blank after
  trimming, does not start with \<open>#\<close> and whose mnemonic is not \<open>lbl\<close>, each word being
  what that line is encoded as; so its length is 4 times the number of such lines, and
  the \<open>lbl\<close> lines contribute nothing.
\<close>

theorem output_length:
  assumes "assemble source b = Inr bs"
  shows "length bs = 4 * length (filter emitting (split_on (CHR 0x0A) source))
       \<and> (\<exists>ws. list_all2
                 (\<lambda>l w. 0 \<le> w \<and> w < 2 ^ 32 \<and>
                    (\<exists>c. base c = b \<and> assemble_line c l = Inr (c\<lparr>code := code c @ be32 w\<rparr>)))
                 (filter emitting (split_on (CHR 0x0A) source)) ws
              \<and> bs = concat (map be32 ws))"
proof -
  from assms have "assemble_from Map.empty source b = Inr bs" by (simp add: assemble_def)
  from assemble_from_pass [OF this] obtain ctx ctx' where
    p1: "assemble_pass (Context_init b Map.empty) source = Inr ctx"
    and p2': "assemble_pass (Context_init b (labels ctx)) source = Inr ctx'"
    and bs: "code ctx' = bs"
    by (elim exE conjE)
  from p2' have
    p2: "assemble_lines (Context_init b (labels ctx)) (split_on (CHR 0x0A) source) = Inr ctx'"
    by (simp add: assemble_pass_def)
  from assemble_lines_words [OF p2] bs obtain ws where
    ws: "list_all2
           (\<lambda>l w. 0 \<le> w \<and> w < 2 ^ 32 \<and>
              (\<exists>c. base c = b \<and> assemble_line c l = Inr (c\<lparr>code := code c @ be32 w\<rparr>)))
           (filter emitting (split_on (CHR 0x0A) source)) ws"
    and c: "bs = concat (map be32 ws)"
    by (auto simp: Context_init_def)
  from ws have "length ws = length (filter emitting (split_on (CHR 0x0A) source))"
    by (simp add: list_all2_lengthD)
  with c have "length bs = 4 * length (filter emitting (split_on (CHR 0x0A) source))"
    by (simp add: length_concat_be32)
  with ws c show ?thesis by blast
qed

section \<open>The address during a pass\<close>

lemma assemble_lines_append:
  "assemble_lines ctx (xs @ ys) = bind (assemble_lines ctx xs) (\<lambda>c. assemble_lines c ys)"
  by (induction xs arbitrary: ctx) (simp_all add: bind_def split: sum.splits)

lemma assemble_lines_prefix:
  assumes "assemble_lines ctx ls = Inr ctx'"
  shows "\<exists>c. assemble_lines ctx (take n ls) = Inr c"
proof -
  have "assemble_lines ctx (take n ls @ drop n ls) = Inr ctx'" using assms by simp
  then show ?thesis
    unfolding assemble_lines_append by (auto simp: bind_def split: sum.splits)
qed

lemma assemble_lines_code_length:
  assumes "assemble_lines ctx ls = Inr ctx'"
  shows "base ctx' = base ctx
       \<and> length (code ctx') = length (code ctx) + 4 * length (filter emitting ls)"
proof -
  from assemble_lines_words [OF assms] obtain ws where
    "base ctx' = base ctx" and
    "length ws = length (filter emitting ls)" and
    "code ctx' = code ctx @ concat (map be32 ws)"
    by (auto dest: list_all2_lengthD)
  then show ?thesis by (simp add: length_concat_be32)
qed

text \<open>
  Claim C9.  In the context reached after any number \<open>n\<close> of lines of a pass that started
  from a word-aligned base, the current address is the base plus the length of the code,
  the length of the code is a multiple of 4, and the address is word-aligned; the next
  line appends exactly 4 bytes when it is an instruction and none otherwise.
\<close>

theorem address_invariant:
  assumes "b mod 4 = 0"
    and "assemble_lines (Context_init b ls) (take n (split_on (CHR 0x0A) source)) = Inr ctx"
  shows "address ctx = b + int (length (code ctx))
       \<and> length (code ctx) mod 4 = 0
       \<and> address ctx mod 4 = 0
       \<and> (\<forall>raw ctx'. assemble_line ctx raw = Inr ctx' \<longrightarrow>
            length (code ctx') = length (code ctx) + (if emitting raw then 4 else 0))"
proof -
  from assemble_lines_code_length [OF assms(2)]
  have b: "base ctx = b" and len: "length (code ctx) mod 4 = 0"
    by (simp_all add: Context_init_def)
  from b have a: "address ctx = b + int (length (code ctx))" by (simp add: address_def)
  from len have "int (length (code ctx)) mod 4 = 0" by presburger
  with assms(1) a have "address ctx mod 4 = 0" by presburger
  with a len show ?thesis by (simp add: assemble_line_length)
qed

text \<open>\<open>be32\<close> is big-endian: reading the four bytes back gives the word.\<close>

lemma be_value_be32:
  assumes "0 \<le> w" and "w < 2 ^ 32"
  shows "be_value (be32 w) = w"
proof -
  define w1 where "w1 = w div 256"
  define w2 where "w2 = w1 div 256"
  define w3 where "w3 = w2 div 256"
  have d16: "w div 65536 = w2" and d24: "w div 16777216 = w3"
    by (simp_all add: w1_def w2_def w3_def zdiv_zmult2_eq)
  have e0: "w = 256 * w1 + w mod 256" and e1: "w1 = 256 * w2 + w1 mod 256"
    and e2: "w2 = 256 * w3 + w2 mod 256"
    by (simp_all add: w1_def w2_def w3_def)
  from assms have "0 \<le> w3" "w3 < 256" unfolding d24 [symmetric] by simp_all
  then have m3: "w3 mod 256 = w3" by simp
  have u: "uint (word_of_int x :: byte) = x mod 256" for x
    by (simp add: uint_word_of_int take_bit_eq_mod)
  have "be_value (be32 w) = w3 mod 256 * 16777216 + w2 mod 256 * 65536 + w1 mod 256 * 256 + w mod 256"
    by (simp add: be32_def u drop_bit_eq_div d16 d24 w1_def)
  also have "\<dots> = w" using e0 e1 e2 m3 by linarith
  finally show ?thesis .
qed

section \<open>The store of dictionaries\<close>

lemma view_simps [simp]:
  "labels (view h c) = h ! labels_ref c"
  "base (view h c) = base_of c"
  "code (view h c) = code_of c"
  by (simp_all add: view_def)

lemma assemble_line_obj_sim:
  assumes "labels_ref c < length h" and "assemble_line_obj h c raw = (r, h')"
  shows "length h' = length h
       \<and> (\<forall>i. i \<noteq> labels_ref c \<longrightarrow> h' ! i = h ! i)
       \<and> (case r of
            Inl e \<Rightarrow> assemble_line (view h c) raw = Inl e
          | Inr c' \<Rightarrow> assemble_line (view h c) raw = Inr (view h' c')
                       \<and> labels_ref c' = labels_ref c)"
proof (cases "assemble_line (view h c) raw")
  case (Inl e)
  with assms(2) show ?thesis by (auto simp: assemble_line_obj_def)
next
  case (Inr ctx')
  with assms(2) have r: "r = Inr (Context_obj (labels_ref c) (base_of c) (code ctx'))"
    and h': "h' = h[labels_ref c := labels ctx']"
    by (auto simp: assemble_line_obj_def)
  from assemble_line_result(1) [OF Inr] have "base ctx' = base_of c" by simp
  with assms(1) h' have "view h' (Context_obj (labels_ref c) (base_of c) (code ctx')) = ctx'"
    by (simp add: view_def)
  with Inr r h' show ?thesis by simp
qed

lemma assemble_lines_obj_sim:
  "labels_ref c < length h \<Longrightarrow> assemble_lines_obj h c ls = (r, h') \<Longrightarrow>
   length h' = length h
   \<and> (\<forall>i. i \<noteq> labels_ref c \<longrightarrow> h' ! i = h ! i)
   \<and> (case r of
        Inl e \<Rightarrow> assemble_lines (view h c) ls = Inl e
      | Inr c' \<Rightarrow> assemble_lines (view h c) ls = Inr (view h' c')
                   \<and> labels_ref c' = labels_ref c)"
proof (induction ls arbitrary: h c)
  case Nil
  then show ?case by auto
next
  case (Cons l ls)
  obtain r1 h1 where l: "assemble_line_obj h c l = (r1, h1)" by (cases "assemble_line_obj h c l")
  note s1 = assemble_line_obj_sim [OF Cons.prems(1) l]
  show ?case
  proof (cases r1)
    case (Inl e)
    with l Cons.prems(2) have "r = Inl e" "h' = h1" by simp_all
    with s1 Inl show ?thesis by (simp add: bind_def)
  next
    case (Inr c1)
    with l Cons.prems(2) have rest: "assemble_lines_obj h1 c1 ls = (r, h')" by simp
    from s1 Inr have c1: "labels_ref c1 = labels_ref c" and len1: "length h1 = length h"
      and same1: "\<forall>i. i \<noteq> labels_ref c \<longrightarrow> h1 ! i = h ! i"
      and step: "assemble_line (view h c) l = Inr (view h1 c1)"
      by simp_all
    from Cons.prems(1) c1 len1 have "labels_ref c1 < length h1" by simp
    from Cons.IH [OF this rest] c1 len1 same1 step show ?thesis
      by (auto simp: bind_def split: sum.splits)
  qed
qed


lemma view_Context_new:
  assumes "r < length h"
  shows "view (h @ [h ! r]) (Context_obj (length h) b [])
           = Context_init b (h ! r)"
  by (simp add: view_def Context_init_def)

lemma assemble_obj_sim:
  assumes d: "default_labels < length h" and run: "assemble_obj h source b = (r, h')"
  shows "r = assemble_from (h ! default_labels) source b \<and> h' ! default_labels = h ! default_labels
       \<and> length h < length h'"
proof -
  let ?c1 = "Context_obj (length h) b []"
  let ?h1 = "h @ [h ! default_labels]"
  let ?lines = "split_on (CHR 0x0A) source"
  obtain r1 h2 where p1: "assemble_lines_obj ?h1 ?c1 ?lines = (r1, h2)"
    by (cases "assemble_lines_obj ?h1 ?c1 ?lines")
  have v1: "view ?h1 ?c1 = Context_init b (h ! default_labels)"
    using d by (rule view_Context_new)
  have "labels_ref ?c1 < length ?h1" by simp
  from assemble_lines_obj_sim [OF this p1]
  have len2: "length h2 = Suc (length h)"
    and same2: "\<forall>i. i \<noteq> length h \<longrightarrow> h2 ! i = ?h1 ! i"
    and sim1: "case r1 of
        Inl e \<Rightarrow> assemble_lines (view ?h1 ?c1) ?lines = Inl e
      | Inr c' \<Rightarrow> assemble_lines (view ?h1 ?c1) ?lines = Inr (view h2 c')
                   \<and> labels_ref c' = length h"
    by (simp_all cong: sum.case_cong)
  from same2 d have def2: "h2 ! default_labels = h ! default_labels"
    by (simp add: nth_append)
  show ?thesis
  proof (cases r1)
    case (Inl e)
    with run p1 have "r = Inl e" "h' = h2"
      by (simp_all add: assemble_obj_def Context_new_def assemble_pass_obj_def)
    moreover from sim1 Inl v1 have "assemble_from (h ! default_labels) source b = Inl e"
      by (simp add: assemble_from_def assemble_pass_def bind_def)
    ultimately show ?thesis using def2 len2 by simp
  next
    case (Inr c1')
    with sim1 v1 have
      pass1: "assemble_pass (Context_init b (h ! default_labels)) source = Inr (view h2 c1')"
      and ref1: "labels_ref c1' = length h"
      by (simp_all add: assemble_pass_def)
    let ?c2 = "Context_obj (length h2) b []"
    let ?h3 = "h2 @ [h2 ! length h]"
    obtain r2 h4 where p2: "assemble_lines_obj ?h3 ?c2 ?lines = (r2, h4)"
      by (cases "assemble_lines_obj ?h3 ?c2 ?lines")
    from run p1 Inr ref1 p2 have res: "h' = h4"
      "r = (case r2 of Inl e \<Rightarrow> Inl e | Inr c2' \<Rightarrow> Inr (code_of c2'))"
      by (auto simp: assemble_obj_def Context_new_def assemble_pass_obj_def split: sum.splits)
    have "length h < length h2" using len2 by simp
    then have v2: "view ?h3 ?c2 = Context_init b (h2 ! length h)"
      by (rule view_Context_new)
    have "labels_ref ?c2 < length ?h3" by simp
    from assemble_lines_obj_sim [OF this p2]
    have len4: "length h4 = Suc (length h2)"
      and same4: "\<forall>i. i \<noteq> length h2 \<longrightarrow> h4 ! i = ?h3 ! i"
      and sim2: "case r2 of
          Inl e \<Rightarrow> assemble_lines (view ?h3 ?c2) ?lines = Inl e
        | Inr c' \<Rightarrow> assemble_lines (view ?h3 ?c2) ?lines = Inr (view h4 c')
                     \<and> labels_ref c' = length h2"
      by (simp_all cong: sum.case_cong)
    from same4 d len2 def2 have def4: "h4 ! default_labels = h ! default_labels"
      by (simp add: nth_append)
    have lab: "labels (view h2 c1') = h2 ! length h" using ref1 by simp
    have "r = assemble_from (h ! default_labels) source b"
    proof (cases r2)
      case (Inl e)
      with sim2 v2 lab pass1 res show ?thesis
        by (simp add: assemble_from_def assemble_pass_def bind_def)
    next
      case (Inr c2')
      with sim2 v2 lab pass1 res show ?thesis
        by (simp add: assemble_from_def assemble_pass_def bind_def)
    qed
    with res def4 len4 len2 show ?thesis by simp
  qed
qed

text \<open>
  Claim C4.  Two invocations of \<open>assemble\<close> on the same source and base, the second
  running in the store the first left behind, give the same result: both fail with the
  same error or both succeed with the same bytes.  No invocation changes the default
  dictionary of \<open>Context.__init__\<close>, and as long as that dictionary is empty, as it is
  created, the result is that of \<open>assemble\<close> above.
\<close>

theorem assemble_deterministic:
  assumes "default_labels < length h"
  shows "fst (assemble_obj (snd (assemble_obj h source b)) source b) = fst (assemble_obj h source b)
       \<and> snd (assemble_obj h source b) ! default_labels = h ! default_labels
       \<and> (h ! default_labels = Map.empty \<longrightarrow> fst (assemble_obj h source b) = assemble source b)"
proof -
  obtain r h' where one: "assemble_obj h source b = (r, h')" by (cases "assemble_obj h source b")
  obtain r' h'' where two: "assemble_obj h' source b = (r', h'')"
    by (cases "assemble_obj h' source b")
  from assemble_obj_sim [OF assms one]
  have r: "r = assemble_from (h ! default_labels) source b"
    and keep: "h' ! default_labels = h ! default_labels" and len: "length h < length h'"
    by simp_all
  from assms len have "default_labels < length h'" by simp
  from assemble_obj_sim [OF this two] keep
  have "r' = assemble_from (h ! default_labels) source b" by simp
  with r keep one two show ?thesis by (simp add: assemble_def)
qed

section \<open>The examples, evaluated\<close>

lemmas line_eval = assemble_line_def strip_def py_isspace_def skipped_def split1_def instructions_def
  st_def fields_def take_arg_def bind_def rd_def rs_def rt_def simm16_def opcode_def reg_def shl_def
  cmpop_def jmpop_def dec_or_hex_def py_int_def int_isspace_def digit_value_def count_digits_def assert_ubits_def
  assert_sbits_eq push_bit_eq_mult Let_def

lemma line_addi_r1_r2_10: "assemble_line ctx ''addi r1, r2, 10'' = emit ctx 0x0041000A"
  by (simp add: line_eval)

lemma line_addi_r1_r1_m1: "assemble_line ctx ''addi r1, r1, -1'' = emit ctx 0x0021FFFF"
  by (simp add: line_eval)

lemma line_addi_r1_r1_1: "assemble_line ctx ''addi r1, r1, 1'' = emit ctx 0x00210001"
  by (simp add: line_eval)

lemma line_jump_end:
  "assemble_line ctx ''jump end'' = bind (rel24 ctx ''end'') (\<lambda>v. emit ctx (0x94000001 OR v))"
  by (simp add: line_eval split: sum.split)

lemma line_bt_loop:
  "assemble_line ctx ''b.t 0, r1, loop'' =
     bind (rel16 ctx ''loop'') (\<lambda>v. emit ctx (0xA0200000 OR v))"
  by (simp add: line_eval split: sum.split)

lemma line_lbl_end: "assemble_line ctx ''lbl end'' = lbl_func ctx [''end'']"
  by (simp add: line_eval)

lemma line_lbl_loop: "assemble_line ctx ''lbl loop'' = lbl_func ctx [''loop'']"
  by (simp add: line_eval)

lemma emit_bytes:
  "0 \<le> inst \<Longrightarrow> inst < 4294967296 \<Longrightarrow>
   emit ctx inst = Inr (ctx\<lparr>code := code ctx @
     [word_of_int (inst div 16777216), word_of_int (inst div 65536), word_of_int (inst div 256),
      word_of_int inst]\<rparr>)"
  by (simp add: emit_def pack_be32_def be32_def drop_bit_eq_div)

lemmas pass_eval = assemble_pass_def Context_init_def bind_def emit_bytes lbl_func_def address_def
  rel16_eq rel24_eq labels_get_def

lemma example_loop_lines:
  "split_on (CHR 0x0A) example_loop =
     [''addi r1, r2, 10'', ''lbl loop'', ''addi r1, r1, -1'', ''b.t 0, r1, loop'']"
  by (simp add: example_loop_def)

lemma example_loop_pass1:
  "assemble_pass (Context_init 0 Map.empty) example_loop =
     Inr \<lparr>labels = [''loop'' \<mapsto> 4], base = 0,
          code = [0x00, 0x41, 0x00, 0x0A, 0x00, 0x21, 0xFF, 0xFF, 0xA0, 0x20, 0xFF, 0xFF]\<rparr>"
  by (simp add: pass_eval example_loop_lines line_addi_r1_r2_10 line_addi_r1_r1_m1 line_bt_loop
      line_lbl_loop)

lemma example_loop_pass2:
  "assemble_pass (Context_init 0 [''loop'' \<mapsto> 4]) example_loop =
     Inr \<lparr>labels = [''loop'' \<mapsto> 4], base = 0,
          code = [0x00, 0x41, 0x00, 0x0A, 0x00, 0x21, 0xFF, 0xFF, 0xA0, 0x20, 0xFF, 0xFF]\<rparr>"
  by (simp add: pass_eval example_loop_lines line_addi_r1_r2_10 line_addi_r1_r1_m1 line_bt_loop
      line_lbl_loop)

lemma example_loop_assembles:
  "assemble example_loop 0 =
     Inr [0x00, 0x41, 0x00, 0x0A, 0x00, 0x21, 0xFF, 0xFF, 0xA0, 0x20, 0xFF, 0xFF]"
  by (simp add: assemble_def assemble_from_def example_loop_pass1 example_loop_pass2 bind_def)

text \<open>
  Claim C2.  Assembling \<open>addi r1, r2, 10\<close>, \<open>lbl loop\<close>, \<open>addi r1, r1, -1\<close>,
  \<open>b.t 0, r1, loop\<close> at base address 0 succeeds with exactly 12 bytes, and the low 16
  bits of the third word are \<open>0xFFFF\<close>, the 16-bit two's-complement pattern of \<open>-1\<close>.
\<close>

theorem example_loop_output:
  "assemble example_loop 0 =
     Inr [0x00, 0x41, 0x00, 0x0A, 0x00, 0x21, 0xFF, 0xFF, 0xA0, 0x20, 0xFF, 0xFF]
   \<and> length [0x00, 0x41, 0x00, 0x0A, 0x00, 0x21, 0xFF, 0xFF, 0xA0, 0x20, 0xFF, 0xFF :: byte] = 12
   \<and> word_at [0x00, 0x41, 0x00, 0x0A, 0x00, 0x21, 0xFF, 0xFF, 0xA0, 0x20, 0xFF, 0xFF] 2
         AND 0xFFFF = 0xFFFF
   \<and> (- 1) mod 2 ^ 16 = (0xFFFF :: int)"
  by (simp add: example_loop_assembles word_at_def)

lemma example_jump_lines:
  "split_on (CHR 0x0A) example_jump =
     [''jump end'', ''addi r1, r1, 1'', ''addi r1, r1, 1'', ''addi r1, r1, 1'', ''lbl end'']"
  by (simp add: example_jump_def)

lemma example_jump_pass1:
  "assemble_pass (Context_init 0 Map.empty) example_jump =
     Inr \<lparr>labels = [''end'' \<mapsto> 16], base = 0,
          code = [0x94, 0x00, 0x00, 0x01, 0x00, 0x21, 0x00, 0x01, 0x00, 0x21, 0x00, 0x01,
                  0x00, 0x21, 0x00, 0x01]\<rparr>"
  by (simp add: pass_eval example_jump_lines line_addi_r1_r1_1 line_jump_end line_lbl_end)

lemma example_jump_pass2:
  "assemble_pass (Context_init 0 [''end'' \<mapsto> 16]) example_jump =
     Inr \<lparr>labels = [''end'' \<mapsto> 16], base = 0,
          code = [0x94, 0x00, 0x00, 0x05, 0x00, 0x21, 0x00, 0x01, 0x00, 0x21, 0x00, 0x01,
                  0x00, 0x21, 0x00, 0x01]\<rparr>"
  by (simp add: pass_eval example_jump_lines line_addi_r1_r1_1 line_jump_end line_lbl_end)

lemma example_jump_assembles:
  "assemble example_jump 0 =
     Inr [0x94, 0x00, 0x00, 0x05, 0x00, 0x21, 0x00, 0x01, 0x00, 0x21, 0x00, 0x01,
          0x00, 0x21, 0x00, 0x01]"
  by (simp add: assemble_def assemble_from_def example_jump_pass1 example_jump_pass2 bind_def)

text \<open>
  Claim C1, as stated, fails: for \<open>jump end\<close>, three \<open>addi\<close> instructions and \<open>lbl end\<close>
  at base address 0, the low 24 bits of the encoded jump are not 3.
\<close>

theorem example_jump_rel24_not_3:
  "assemble example_jump 0 =
     Inr [0x94, 0x00, 0x00, 0x05, 0x00, 0x21, 0x00, 0x01, 0x00, 0x21, 0x00, 0x01,
          0x00, 0x21, 0x00, 0x01]
   \<and> word_at [0x94, 0x00, 0x00, 0x05, 0x00, 0x21, 0x00, 0x01, 0x00, 0x21, 0x00, 0x01,
          0x00, 0x21, 0x00, 0x01] 0 AND 0xFFFFFF \<noteq> 3"
  by (simp add: example_jump_assembles word_at_def)

lemma addi_loop_independent:
  "st_loop ctx (split_on (CHR '' '') ''opcode:0x00 rd: rs: simm16:'') 0 args =
   st_loop ctx' (split_on (CHR '' '') ''opcode:0x00 rd: rs: simm16:'') 0 args"
  by (simp add: fields_def take_arg_def bind_def opcode_def rd_def rs_def simm16_def reg_def
      cong: sum.case_cong list.case_cong)


lemma mnemonic_not_skipped:
  assumes "mnemonic line = ''addi''"
  shows "\<not> skipped line"
proof (cases line)
  case Nil
  with assms show ?thesis by (simp add: mnemonic_def)
next
  case (Cons x xs)
  with assms show ?thesis by (auto simp: mnemonic_def skipped_def split: if_splits)
qed

lemma addi_line_word:
  assumes m: "mnemonic (strip a) = ''addi''" and run: "assemble_line c a = Inr c'"
  shows "\<exists>w. 0 \<le> w \<and> w < 2 ^ 32 \<and>
           (\<forall>ctx. assemble_line ctx a = Inr (ctx\<lparr>code := code ctx @ be32 w\<rparr>))"
proof -
  let ?L = "''opcode:0x00 rd: rs: simm16:''"
  from m have ns: "\<not> skipped (strip a)" by (rule mnemonic_not_skipped)
  with run obtain op args where sp: "split1 (CHR '' '') (strip a) = [op, args]"
    by (auto simp: assemble_line_def Let_def split: list.splits)
  with m have op: "op = ''addi''" by (simp add: split1_mnemonic)
  let ?args = "map strip (split_on (CHR '','') (strip args))"
  have line: "assemble_line ctx a = st ?L ctx ?args" for ctx
    using ns sp op by (simp add: assemble_line_def Let_def instructions_addi)
  from run line obtain w where w: "st_loop c (split_on (CHR '' '') ?L) 0 ?args = Inr w"
    and e: "emit c w = Inr c'"
    by (auto simp: st_def bind_def split: sum.splits)
  from emit_result [OF e] have r: "0 \<le> w" "w < 2 ^ 32" by simp_all
  have "assemble_line ctx a = Inr (ctx\<lparr>code := code ctx @ be32 w\<rparr>)" for ctx
  proof -
    have "st_loop ctx (split_on (CHR '' '') ?L) 0 ?args = Inr w"
      using w addi_loop_independent [of ctx ?args c] by simp
    with r show ?thesis by (simp add: line st_def bind_def emit_def pack_be32_def)
  qed
  with r show ?thesis by blast
qed

lemma jump_forward_lines:
  assumes "CHR 0x0A \<notin> set a1" and "CHR 0x0A \<notin> set a2" and "CHR 0x0A \<notin> set a3"
  shows "split_on (CHR 0x0A)
           (''jump end'' @ [CHR 0x0A] @ a1 @ [CHR 0x0A] @ a2 @ [CHR 0x0A] @ a3 @ [CHR 0x0A]
              @ ''lbl end'')
         = [''jump end'', a1, a2, a3, ''lbl end'']"
proof -
  have j: "CHR 0x0A \<notin> set ''jump end''" and l: "CHR 0x0A \<notin> set ''lbl end''" by simp_all
  have "split_on (CHR 0x0A) (''jump end'' @ CHR 0x0A # a1 @ CHR 0x0A # a2 @ CHR 0x0A # a3
          @ CHR 0x0A # ''lbl end'')
        = [''jump end'', a1, a2, a3, ''lbl end'']"
    by (simp only: split_on_append_sep [OF j] split_on_append_sep [OF assms(1)]
        split_on_append_sep [OF assms(2)] split_on_append_sep [OF assms(3)]
        split_on_no_sep [OF l])
  then show ?thesis by simp
qed

text \<open>
  Claim C1, amended.  For the source \<open>jump end\<close>, any three \<open>addi\<close> instructions (lines
  with the mnemonic \<open>addi\<close> that assemble), \<open>lbl end\<close>, at base address 0, \<open>assemble\<close>
  succeeds with 16 bytes, the first pass binds \<open>end\<close> to address 16, and for the jump,
  encoded in the second pass at its own address 0, the \<open>rel24\<close> field is
  \<open>(16 - 0) / 4 = 4\<close>: the jump itself is one of the four words before the label.
\<close>

theorem jump_forward_rel24:
  assumes "CHR 0x0A \<notin> set a1" and "mnemonic (strip a1) = ''addi''"
    and "assemble_line c1 a1 = Inr c1'"
    and "CHR 0x0A \<notin> set a2" and "mnemonic (strip a2) = ''addi''"
    and "assemble_line c2 a2 = Inr c2'"
    and "CHR 0x0A \<notin> set a3" and "mnemonic (strip a3) = ''addi''"
    and "assemble_line c3 a3 = Inr c3'"
  shows "\<exists>bs ctx. assemble (''jump end'' @ [CHR 0x0A] @ a1 @ [CHR 0x0A] @ a2 @ [CHR 0x0A] @ a3
                  @ [CHR 0x0A] @ ''lbl end'') 0 = Inr bs
           \<and> length bs = 16
           \<and> assemble_pass (Context_init 0 Map.empty)
                (''jump end'' @ [CHR 0x0A] @ a1 @ [CHR 0x0A] @ a2 @ [CHR 0x0A] @ a3
                  @ [CHR 0x0A] @ ''lbl end'') = Inr ctx
           \<and> labels ctx ''end'' = Some 16
           \<and> address (Context_init 0 (labels ctx)) = 0
           \<and> rel24 (Context_init 0 (labels ctx)) ''end'' = Inr 4"
proof -
  let ?src = "''jump end'' @ [CHR 0x0A] @ a1 @ [CHR 0x0A] @ a2 @ [CHR 0x0A] @ a3
                @ [CHR 0x0A] @ ''lbl end''"
  from addi_line_word [OF assms(2,3)] obtain w1 where
    w1: "\<And>ctx. assemble_line ctx a1 = Inr (ctx\<lparr>code := code ctx @ be32 w1\<rparr>)" by blast
  from addi_line_word [OF assms(5,6)] obtain w2 where
    w2: "\<And>ctx. assemble_line ctx a2 = Inr (ctx\<lparr>code := code ctx @ be32 w2\<rparr>)" by blast
  from addi_line_word [OF assms(8,9)] obtain w3 where
    w3: "\<And>ctx. assemble_line ctx a3 = Inr (ctx\<lparr>code := code ctx @ be32 w3\<rparr>)" by blast
  have lines: "split_on (CHR 0x0A) ?src = [''jump end'', a1, a2, a3, ''lbl end'']"
    using assms(1,4,7) by (rule jump_forward_lines)
  have p1: "assemble_pass (Context_init 0 Map.empty) ?src =
     Inr \<lparr>labels = [''end'' \<mapsto> 16], base = 0,
          code = [0x94, 0x00, 0x00, 0x01] @ be32 w1 @ be32 w2 @ be32 w3\<rparr>"
    unfolding assemble_pass_def lines
    by (simp add: Context_init_def bind_def emit_bytes lbl_func_def address_def rel24_eq
        labels_get_def line_jump_end line_lbl_end w1 w2 w3 length_be32)
  have p2: "assemble_pass (Context_init 0 [''end'' \<mapsto> 16]) ?src =
     Inr \<lparr>labels = [''end'' \<mapsto> 16], base = 0,
          code = [0x94, 0x00, 0x00, 0x05] @ be32 w1 @ be32 w2 @ be32 w3\<rparr>"
    unfolding assemble_pass_def lines
    by (simp add: Context_init_def bind_def emit_bytes lbl_func_def address_def rel24_eq
        labels_get_def line_jump_end line_lbl_end w1 w2 w3 length_be32)
  have "assemble ?src 0 = Inr ([0x94, 0x00, 0x00, 0x05] @ be32 w1 @ be32 w2 @ be32 w3)"
    by (simp only: assemble_def assemble_from_def p1 p2 bind_def sum.case Context.select_convs)
  moreover have "length ([0x94, 0x00, 0x00, 0x05 :: byte] @ be32 w1 @ be32 w2 @ be32 w3) = 16"
    by (simp add: length_be32)
  moreover have "address (Context_init 0 [''end'' \<mapsto> 16]) = 0"
    by (simp add: Context_init_def address_def)
  moreover have "rel24 (Context_init 0 [''end'' \<mapsto> 16]) ''end'' = Inr 4"
    by (simp add: rel24_eq labels_get_def address_def Context_init_def)
  ultimately show ?thesis using p1 by (simp del: append.simps)
qed

lemma addi_lines_run:
  "assemble_line (Context_init 0 Map.empty) ''addi r1, r2, 10'' =
     Inr \<lparr>labels = Map.empty, base = 0, code = [0x00, 0x41, 0x00, 0x0A]\<rparr>"
  "assemble_line (Context_init 0 Map.empty) ''addi r1, r1, -1'' =
     Inr \<lparr>labels = Map.empty, base = 0, code = [0x00, 0x21, 0xFF, 0xFF]\<rparr>"
  "assemble_line (Context_init 0 Map.empty) ''addi r1, r1, 1'' =
     Inr \<lparr>labels = Map.empty, base = 0, code = [0x00, 0x21, 0x00, 0x01]\<rparr>"
  by (simp_all add: line_addi_r1_r2_10 line_addi_r1_r1_m1 line_addi_r1_r1_1 emit_bytes
      Context_init_def)

lemma addi_lines_mnemonic:
  "mnemonic (strip ''addi r1, r2, 10'') = ''addi''"
  "mnemonic (strip ''addi r1, r1, -1'') = ''addi''"
  "mnemonic (strip ''addi r1, r1, 1'') = ''addi''"
  by (simp_all add: mnemonic_def strip_def py_isspace_def)

theorem jump_forward_rel24_witness:
  "CHR 0x0A \<notin> set ''addi r1, r2, 10'' \<and> mnemonic (strip ''addi r1, r2, 10'') = ''addi''
   \<and> assemble_line (Context_init 0 Map.empty) ''addi r1, r2, 10'' =
        Inr \<lparr>labels = Map.empty, base = 0, code = [0x00, 0x41, 0x00, 0x0A]\<rparr>
   \<and> CHR 0x0A \<notin> set ''addi r1, r1, -1'' \<and> mnemonic (strip ''addi r1, r1, -1'') = ''addi''
   \<and> assemble_line (Context_init 0 Map.empty) ''addi r1, r1, -1'' =
        Inr \<lparr>labels = Map.empty, base = 0, code = [0x00, 0x21, 0xFF, 0xFF]\<rparr>
   \<and> CHR 0x0A \<notin> set ''addi r1, r1, 1'' \<and> mnemonic (strip ''addi r1, r1, 1'') = ''addi''
   \<and> assemble_line (Context_init 0 Map.empty) ''addi r1, r1, 1'' =
        Inr \<lparr>labels = Map.empty, base = 0, code = [0x00, 0x21, 0x00, 0x01]\<rparr>
   \<and> (\<exists>bs ctx. assemble (''jump end'' @ [CHR 0x0A] @ ''addi r1, r2, 10'' @ [CHR 0x0A]
                @ ''addi r1, r1, -1'' @ [CHR 0x0A] @ ''addi r1, r1, 1'' @ [CHR 0x0A]
                @ ''lbl end'') 0 = Inr bs
          \<and> length bs = 16
          \<and> assemble_pass (Context_init 0 Map.empty)
                (''jump end'' @ [CHR 0x0A] @ ''addi r1, r2, 10'' @ [CHR 0x0A]
                  @ ''addi r1, r1, -1'' @ [CHR 0x0A] @ ''addi r1, r1, 1'' @ [CHR 0x0A]
                  @ ''lbl end'') = Inr ctx
          \<and> labels ctx ''end'' = Some 16
          \<and> address (Context_init 0 (labels ctx)) = 0
          \<and> rel24 (Context_init 0 (labels ctx)) ''end'' = Inr 4)"
proof -
  have nl: "CHR 0x0A \<notin> set ''addi r1, r2, 10''" "CHR 0x0A \<notin> set ''addi r1, r1, -1''"
    "CHR 0x0A \<notin> set ''addi r1, r1, 1''" by simp_all
  note run = jump_forward_rel24 [OF nl(1) addi_lines_mnemonic(1) addi_lines_run(1)
      nl(2) addi_lines_mnemonic(2) addi_lines_run(2) nl(3) addi_lines_mnemonic(3) addi_lines_run(3)]
  show ?thesis
    by (intro conjI nl addi_lines_mnemonic addi_lines_run run)
qed

section \<open>Validation during the first pass\<close>

lemma example_forward_lines:
  "split_on (CHR 0x0A) example_forward = [''jump end'', ''lbl end'']"
  by (simp add: example_forward_def)

lemma example_forward_unaligned: "assemble example_forward 2 = Inl AlignmentError"
  by (simp add: assemble_def assemble_from_def pass_eval example_forward_lines line_jump_end)

lemma example_forward_unaligned_pass2:
  "assemble_pass (Context_init 2 [''end'' \<mapsto> 6]) example_forward =
     Inr \<lparr>labels = [''end'' \<mapsto> 6], base = 2, code = [0x94, 0x00, 0x00, 0x01]\<rparr>"
  by (simp add: pass_eval example_forward_lines line_jump_end line_lbl_end)

lemma example_forward_far: "assemble example_forward 33554436 = Inl FieldRangeError"
  by (simp add: assemble_def assemble_from_def pass_eval example_forward_lines line_jump_end)

lemma example_forward_far_pass2:
  "assemble_pass (Context_init 33554436 [''end'' \<mapsto> 33554440]) example_forward =
     Inr \<lparr>labels = [''end'' \<mapsto> 33554440], base = 33554436, code = [0x94, 0x00, 0x00, 0x01]\<rparr>"
  by (simp add: pass_eval example_forward_lines line_jump_end line_lbl_end)

lemma unknown_label_unaligned:
  assumes "labels ctx arg = None" and "address ctx mod 4 \<noteq> 0"
  shows "rel24 ctx arg = Inl AlignmentError" and "rel16 ctx arg = Inl AlignmentError"
proof -
  from assms(2) have "(- address ctx) mod 4 \<noteq> 0" by presburger
  with assms(1) show "rel24 ctx arg = Inl AlignmentError" and "rel16 ctx arg = Inl AlignmentError"
    by (simp_all add: rel24_eq rel16_eq labels_get_def)
qed

lemma unknown_label_far24:
  assumes "labels ctx arg = None" and "address ctx mod 4 = 0" and "2 ^ 25 < address ctx"
  shows "rel24 ctx arg = Inl FieldRangeError"
proof -
  from assms(2) have m: "(- address ctx) mod 4 = 0" by presburger
  from assms(2,3) have "(- address ctx) div 4 < - (2 ^ 23)" by simp
  with assms(1) m show ?thesis by (simp add: rel24_eq labels_get_def)
qed

lemma unknown_label_far16:
  assumes "labels ctx arg = None" and "address ctx mod 4 = 0" and "2 ^ 17 < address ctx"
  shows "rel16 ctx arg = Inl FieldRangeError"
proof -
  from assms(2) have m: "(- address ctx) mod 4 = 0" by presburger
  from assms(2,3) have "(- address ctx) div 4 < - (2 ^ 15)" by simp
  with assms(1) m show ?thesis by (simp add: rel16_eq labels_get_def)
qed

lemma unaligned_base_address:
  assumes "b mod 4 \<noteq> 0" and "assemble_lines (Context_init b ls) lines = Inr ctx"
  shows "address ctx mod 4 \<noteq> 0"
proof -
  from assemble_lines_code_length [OF assms(2)]
  have "address ctx = b + 4 * int (length (filter emitting lines))"
    by (simp add: address_def Context_init_def)
  with assms(1) show ?thesis by presburger
qed

text \<open>
  Claim C10.  Relative offsets are validated in the first pass too, where a label not
  yet declared counts as address 0.  The source \<open>jump end\<close>, \<open>lbl end\<close> declares the label
  it refers to, and the second pass alone succeeds on it with the final label table, yet
  \<open>assemble\<close> fails with \<open>AlignmentError\<close> at base 2 and with \<open>FieldRangeError\<close> at base
  \<open>2^25 + 4\<close>.  In general a reference to a label not in the table fails with
  \<open>AlignmentError\<close> when the current address is not a multiple of 4, which is the case
  throughout a pass whose base is not a multiple of 4, and with \<open>FieldRangeError\<close> when
  the address is a multiple of 4 above \<open>2^25\<close>.
\<close>

theorem pass1_validation:
  "assemble example_forward 2 = Inl AlignmentError
   \<and> (\<exists>ctx. assemble_pass (Context_init 2 [''end'' \<mapsto> 6]) example_forward = Inr ctx)
   \<and> assemble example_forward (2 ^ 25 + 4) = Inl FieldRangeError
   \<and> (\<exists>ctx. assemble_pass (Context_init (2 ^ 25 + 4) [''end'' \<mapsto> 2 ^ 25 + 8]) example_forward
          = Inr ctx)
   \<and> (labels ctx arg = None \<and> address ctx mod 4 \<noteq> 0 \<longrightarrow>
        rel24 ctx arg = Inl AlignmentError \<and> rel16 ctx arg = Inl AlignmentError)
   \<and> (labels ctx arg = None \<and> address ctx mod 4 = 0 \<and> 2 ^ 25 < address ctx \<longrightarrow>
        rel24 ctx arg = Inl FieldRangeError \<and> rel16 ctx arg = Inl FieldRangeError)
   \<and> (b mod 4 \<noteq> 0 \<and> assemble_lines (Context_init b Map.empty) lines = Inr ctx \<longrightarrow>
        address ctx mod 4 \<noteq> 0)"
proof -
  have far: "2 ^ 25 < address ctx \<Longrightarrow> 2 ^ 17 < address ctx" by simp
  show ?thesis
    using example_forward_unaligned example_forward_unaligned_pass2 example_forward_far
      example_forward_far_pass2 unknown_label_unaligned [of ctx arg] unknown_label_far24 [of ctx arg]
      unknown_label_far16 [of ctx arg] unaligned_base_address [of b Map.empty lines ctx] far
    by simp
qed

lemma unaligned_addi:
  "assemble_lines (Context_init 2 Map.empty) [''addi r1, r1, 1''] =
     Inr \<lparr>labels = Map.empty, base = 2, code = [0x00, 0x21, 0x00, 0x01]\<rparr>"
  by (simp add: pass_eval line_addi_r1_r1_1)

theorem pass1_validation_witness:
  "assemble_lines (Context_init 2 Map.empty) [''addi r1, r1, 1''] =
     Inr \<lparr>labels = Map.empty, base = 2, code = [0x00, 0x21, 0x00, 0x01]\<rparr>
   \<and> address \<lparr>labels = Map.empty, base = 2, code = [0x00, 0x21, 0x00, 0x01]\<rparr> mod 4 \<noteq> 0
   \<and> rel24 \<lparr>labels = Map.empty, base = 2, code = [0x00, 0x21, 0x00, 0x01]\<rparr> ''end''
        = Inl AlignmentError
   \<and> address (Context_init 33554436 Map.empty) mod 4 = 0
   \<and> rel24 (Context_init 33554436 Map.empty) ''end'' = Inl FieldRangeError
   \<and> rel16 (Context_init 33554436 Map.empty) ''end'' = Inl FieldRangeError"
  using pass1_validation
      [of "\<lparr>labels = Map.empty, base = 2, code = [0x00, 0x21, 0x00, 0x01]\<rparr>" "''end''" 2
        "[''addi r1, r1, 1'']"]
    pass1_validation [of "Context_init 33554436 Map.empty" "''end''" 0 "[]"]
    unaligned_addi
  by (simp add: Context_init_def address_def)

theorem output_length_witness:
  "assemble example_loop 0 =
     Inr [0x00, 0x41, 0x00, 0x0A, 0x00, 0x21, 0xFF, 0xFF, 0xA0, 0x20, 0xFF, 0xFF]
   \<and> 4 * length (filter emitting (split_on (CHR 0x0A) example_loop)) = 12"
  using output_length [OF example_loop_assembles] example_loop_assembles by simp

lemma example_loop_prefix:
  "assemble_lines (Context_init 0 Map.empty) (take 2 (split_on (CHR 0x0A) example_loop)) =
     Inr \<lparr>labels = [''loop'' \<mapsto> 4], base = 0, code = [0x00, 0x41, 0x00, 0x0A]\<rparr>"
  by (simp add: pass_eval example_loop_lines line_addi_r1_r2_10 line_lbl_loop)

theorem address_invariant_witness:
  "(0::int) mod 4 = 0
   \<and> assemble_lines (Context_init 0 Map.empty) (take 2 (split_on (CHR 0x0A) example_loop)) =
       Inr \<lparr>labels = [''loop'' \<mapsto> 4], base = 0, code = [0x00, 0x41, 0x00, 0x0A]\<rparr>
   \<and> address \<lparr>labels = [''loop'' \<mapsto> 4], base = 0, code = [0x00, 0x41, 0x00, 0x0A]\<rparr> = 4"
  using address_invariant [OF _ example_loop_prefix] example_loop_prefix by simp

theorem assemble_deterministic_witness:
  "default_labels < length [Map.empty :: string \<rightharpoonup> int]
   \<and> fst (assemble_obj (snd (assemble_obj [Map.empty] example_loop 0)) example_loop 0) =
       Inr [0x00, 0x41, 0x00, 0x0A, 0x00, 0x21, 0xFF, 0xFF, 0xA0, 0x20, 0xFF, 0xFF]"
  using assemble_deterministic [of "[Map.empty]" example_loop 0] example_loop_assembles
  by (simp add: default_labels_def)

end
